theory Spec2Isabelle
  imports
    Complex_Main
    "HOL-Library.Multiset"
    "HOL-Library.Char_ord"
    "HOL-Library.List_Lexorder"
    "HOL-Library.Product_Lexorder"
begin

section \<open>Data model (types/journal.ts)\<close>

text \<open>
  A \<^verbatim>\<open>Blob\<close> is an opaque byte sequence. An object URL is a string; the code only asks
  whether it starts with \<^verbatim>\<open>blob:\<close>, so \<open>BlobUrl n\<close> stands for the \<open>n\<close>-th string
  handed out by \<^verbatim>\<open>URL.createObjectURL\<close> and \<open>OtherUrl s\<close> for any string \<open>s\<close> that does
  not start with \<^verbatim>\<open>blob:\<close>.

  \<open>createdAt\<close> is the instant, in milliseconds since the epoch, denoted by the ISO-8601
  string that \<^verbatim>\<open>new Date().toISOString()\<close> writes; this is the value of
  \<^verbatim>\<open>new Date(createdAt).getTime()\<close>. On such strings (fixed width, UTC) the string
  order used by the table index and the order of the instants coincide.
\<close>

type_synonym blob = "nat list"

datatype url = BlobUrl nat | OtherUrl string

record JournalEntry =
  entry_id :: string
  createdAt :: int
  transcript :: string
  duration :: real
  audioBlob :: "blob option"
  audioUrl :: "url option"
  encrypted :: bool
  title :: "string option"
  emotion :: "string option"


section \<open>The browser's object URLs\<close>

text \<open>
  \<^verbatim>\<open>URL.createObjectURL\<close> registers a fresh URL in the browser's blob URL store and
  \<^verbatim>\<open>URL.revokeObjectURL\<close> removes one (a no-op for a URL that is not registered).
  \<open>blob_urls\<close> is that store, \<open>next_url\<close> numbers the URLs, and \<open>url_log\<close> records
  the calls in the order they are made.
\<close>

datatype url_event = Created nat | Revoked nat

record browser =
  next_url :: nat
  blob_urls :: "nat set"
  url_log :: "url_event list"

definition createObjectURL :: "blob \<Rightarrow> 'a browser_scheme \<Rightarrow> url \<times> 'a browser_scheme" where
  "createObjectURL b w =
     (BlobUrl (next_url w),
      w\<lparr>next_url := Suc (next_url w),
        blob_urls := insert (next_url w) (blob_urls w),
        url_log := url_log w @ [Created (next_url w)]\<rparr>)"

definition revokeObjectURL :: "nat \<Rightarrow> 'a browser_scheme \<Rightarrow> 'a browser_scheme" where
  "revokeObjectURL n w =
     w\<lparr>blob_urls := blob_urls w - {n}, url_log := url_log w @ [Revoked n]\<rparr>"

section \<open>Persistence (store/db.ts)\<close>

text \<open>
  \<open>JournalState\<close> holds the two fields of the zustand store, \<open>entries\<close> and \<open>hydrated\<close>,
  together with what its actions reach: the Dexie table \<open>journals\<close> (one record per
  primary key \<open>id\<close>; the order of the list carries no meaning, reads go through the
  \<open>createdAt\<close> index) and the browser's URL store.

  A call of the table can fail (the promise rejects and \<^verbatim>\<open>await\<close> throws); the flag
  \<open>ok\<close> of each function says whether the call succeeds.
\<close>

record JournalState = browser +
  entries :: "JournalEntry list"
  hydrated :: bool
  journals :: "JournalEntry list"

datatype error = PersistenceError

definition table_put :: "JournalEntry \<Rightarrow> JournalEntry list \<Rightarrow> JournalEntry list" where
  "table_put r tbl = r # filter (\<lambda>x. entry_id x \<noteq> entry_id r) tbl"

definition table_delete :: "string \<Rightarrow> JournalEntry list \<Rightarrow> JournalEntry list" where
  "table_delete i tbl = filter (\<lambda>x. entry_id x \<noteq> i) tbl"

text \<open>\<^verbatim>\<open>orderBy("createdAt")\<close>: ascending in the index, ties in primary-key order.\<close>

definition orderBy_createdAt :: "JournalEntry list \<Rightarrow> JournalEntry list" where
  "orderBy_createdAt tbl = sort_key (\<lambda>r. (createdAt r, entry_id r)) tbl"

text \<open>
  \<^verbatim>\<open>entry.audioUrl ?? (entry.audioBlob ? URL.createObjectURL(entry.audioBlob) : undefined)\<close>,
  the expression of both \<^verbatim>\<open>getAllJournals\<close> and \<^verbatim>\<open>addEntry\<close>.
\<close>

definition derive_audioUrl ::
  "JournalEntry \<Rightarrow> 'a browser_scheme \<Rightarrow> url option \<times> 'a browser_scheme" where
  "derive_audioUrl e w =
     (case audioUrl e of
        Some u \<Rightarrow> (Some u, w)
      | None \<Rightarrow>
          (case audioBlob e of
             Some b \<Rightarrow> (let (u, w') = createObjectURL b w in (Some u, w'))
           | None \<Rightarrow> (None, w)))"

text \<open>The callback of \<^verbatim>\<open>records.map\<close> in \<^verbatim>\<open>getAllJournals\<close>, applied left to right.\<close>

fun with_audioUrls ::
  "JournalEntry list \<Rightarrow> 'a browser_scheme \<Rightarrow> JournalEntry list \<times> 'a browser_scheme" where
  "with_audioUrls [] w = ([], w)"
| "with_audioUrls (e # es) w =
     (let (u, w1) = derive_audioUrl e w;
          (es', w2) = with_audioUrls es w1
      in (e\<lparr>audioUrl := u\<rparr> # es', w2))"

definition getAllJournals ::
  "bool \<Rightarrow> JournalState \<Rightarrow> (error + JournalEntry list) \<times> JournalState" where
  "getAllJournals ok w =
     (if \<not> ok then (Inl PersistenceError, w)
      else (let records = rev (orderBy_createdAt (journals w));
                (es, w') = with_audioUrls records w
            in (Inr es, w')))"

text \<open>\<^verbatim>\<open>{ ...persistable, audioUrl: undefined }\<close>: the record that \<^verbatim>\<open>saveJournal\<close> writes.\<close>

definition persistable :: "JournalEntry \<Rightarrow> JournalEntry" where
  "persistable entry = entry\<lparr>audioUrl := None\<rparr>"

definition saveJournal ::
  "bool \<Rightarrow> JournalEntry \<Rightarrow> JournalState \<Rightarrow> (error + unit) \<times> JournalState" where
  "saveJournal ok entry w =
     (if \<not> ok then (Inl PersistenceError, w)
      else (Inr (), w\<lparr>journals := table_put (persistable entry) (journals w)\<rparr>))"

definition deleteJournal ::
  "bool \<Rightarrow> string \<Rightarrow> JournalState \<Rightarrow> (error + unit) \<times> JournalState" where
  "deleteJournal ok i w =
     (if \<not> ok then (Inl PersistenceError, w)
      else (Inr (), w\<lparr>journals := table_delete i (journals w)\<rparr>))"


definition revokeAudioUrl :: "JournalEntry \<Rightarrow> 'a browser_scheme \<Rightarrow> 'a browser_scheme" where
  "revokeAudioUrl entry w =
     (case audioUrl entry of
        Some (BlobUrl n) \<Rightarrow> revokeObjectURL n w
      | _ \<Rightarrow> w)"

section \<open>The journal store (store/journals.ts)\<close>

text \<open>
  A \<^verbatim>\<open>Partial<JournalEntry>\<close>: each field is either defined by the patch or left out.
  (A patch that defines an optional field as \<^verbatim>\<open>undefined\<close> is not modelled.)
\<close>

record JournalPatch =
  p_id :: "string option"
  p_createdAt :: "int option"
  p_transcript :: "string option"
  p_duration :: "real option"
  p_audioBlob :: "blob option"
  p_audioUrl :: "url option"
  p_encrypted :: "bool option"
  p_title :: "string option"
  p_emotion :: "string option"

definition or_else :: "'a option \<Rightarrow> 'a \<Rightarrow> 'a" where
  "or_else p v = (case p of Some x \<Rightarrow> x | None \<Rightarrow> v)"

definition or_keep :: "'a option \<Rightarrow> 'a option \<Rightarrow> 'a option" where
  "or_keep p v = (case p of Some x \<Rightarrow> Some x | None \<Rightarrow> v)"

text \<open>\<^verbatim>\<open>{ ...existing, ...patch }\<close>\<close>

definition spread :: "JournalEntry \<Rightarrow> JournalPatch \<Rightarrow> JournalEntry" where
  "spread existing patch =
     \<lparr>entry_id = or_else (p_id patch) (entry_id existing),
      createdAt = or_else (p_createdAt patch) (createdAt existing),
      transcript = or_else (p_transcript patch) (transcript existing),
      duration = or_else (p_duration patch) (duration existing),
      audioBlob = or_keep (p_audioBlob patch) (audioBlob existing),
      audioUrl = or_keep (p_audioUrl patch) (audioUrl existing),
      encrypted = or_else (p_encrypted patch) (encrypted existing),
      title = or_keep (p_title patch) (title existing),
      emotion = or_keep (p_emotion patch) (emotion existing)\<rparr>"

definition addEntry ::
  "bool \<Rightarrow> JournalEntry \<Rightarrow> JournalState \<Rightarrow> (error + unit) \<times> JournalState" where
  "addEntry ok entry w =
     (let (derivedAudioUrl, w1) = derive_audioUrl entry w;
          nextEntry = entry\<lparr>audioUrl := derivedAudioUrl\<rparr>
      in case saveJournal ok nextEntry w1 of
           (Inl err, w2) \<Rightarrow> (Inl err, w2)
         | (Inr _, w2) \<Rightarrow> (Inr (), w2\<lparr>entries := nextEntry # entries w2\<rparr>))"

definition updateEntry ::
  "bool \<Rightarrow> string \<Rightarrow> JournalPatch \<Rightarrow> JournalState \<Rightarrow> (error + unit) \<times> JournalState" where
  "updateEntry ok i patch w =
     (case find (\<lambda>entry. entry_id entry = i) (entries w) of
        None \<Rightarrow> (Inr (), w)
      | Some existing \<Rightarrow>
          (let (updated, w1) =
                 (case p_audioBlob patch of
                    Some b \<Rightarrow>
                      (let (u, wa) = createObjectURL b w;
                           wb = revokeAudioUrl existing wa
                       in ((spread existing patch)\<lparr>audioUrl := Some u\<rparr>, wb))
                  | None \<Rightarrow> (spread existing patch, w))
           in case saveJournal ok updated w1 of
                (Inl err, w2) \<Rightarrow> (Inl err, w2)
              | (Inr _, w2) \<Rightarrow>
                  (Inr (),
                   w2\<lparr>entries :=
                        map (\<lambda>entry. if entry_id entry = i then updated else entry)
                          (entries w2)\<rparr>)))"

definition removeEntry ::
  "bool \<Rightarrow> string \<Rightarrow> JournalState \<Rightarrow> (error + unit) \<times> JournalState" where
  "removeEntry ok i w =
     (case deleteJournal ok i w of
        (Inl err, w1) \<Rightarrow> (Inl err, w1)
      | (Inr _, w1) \<Rightarrow>
          (let w2 = (case find (\<lambda>item. entry_id item = i) (entries w1) of
                       Some entry \<Rightarrow> revokeAudioUrl entry w1
                     | None \<Rightarrow> w1)
           in (Inr (), w2\<lparr>entries := filter (\<lambda>item. entry_id item \<noteq> i) (entries w2)\<rparr>)))"


definition hydrate :: "bool \<Rightarrow> JournalState \<Rightarrow> (error + unit) \<times> JournalState" where
  "hydrate ok w =
     (if hydrated w then (Inr (), w)
      else (case getAllJournals ok w of
              (Inl err, w1) \<Rightarrow> (Inl err, w1)
            | (Inr es, w1) \<Rightarrow> (Inr (), w1\<lparr>entries := es, hydrated := True\<rparr>)))"

definition getEntry :: "string \<Rightarrow> JournalState \<Rightarrow> JournalEntry option" where
  "getEntry i w = find (\<lambda>entry. entry_id entry = i) (entries w)"

text \<open>The store as \<^verbatim>\<open>create\<close> builds it, over a given table.\<close>

definition initial_state :: "JournalEntry list \<Rightarrow> JournalState" where
  "initial_state tbl =
     \<lparr>next_url = 0, blob_urls = {}, url_log = [],
      entries = [], hydrated = False, journals = tbl\<rparr>"

subsection \<open>Sequences of store actions\<close>




section \<open>Streak computation (store/journals.ts, getStreakCount)\<close>

definition ms_per_day :: int where
  "ms_per_day = 1000 * 60 * 60 * 24"

text \<open>
  \<^verbatim>\<open>Math.ceil((current.getTime() - nextDate.getTime()) / (1000 * 60 * 60 * 24))\<close>.
  The instants are integers, so the quotient is compared with 0 and 1 exactly as the
  integer ceiling is (\<^verbatim>\<open>-0 === 0\<close> holds in JavaScript).
\<close>

definition ceil_days :: "int \<Rightarrow> int" where
  "ceil_days d = - ((- d) div ms_per_day)"

text \<open>The \<^verbatim>\<open>for\<close> loop over \<^verbatim>\<open>entries[1..]\<close>, with \<^verbatim>\<open>current\<close> and \<^verbatim>\<open>streak\<close>.\<close>

fun streak_loop :: "int \<Rightarrow> nat \<Rightarrow> JournalEntry list \<Rightarrow> nat" where
  "streak_loop current streak [] = streak"
| "streak_loop current streak (e # es) =
     (let nextDate = createdAt e;
          diff = ceil_days (current - nextDate)
      in if diff = 0 then streak_loop current streak es
         else if diff = 1 then streak_loop nextDate (streak + 1) es
         else streak)"

text \<open>
  \<^verbatim>\<open>[...get().entries].sort((a, b) => time(b) - time(a))\<close>: a stable sort of a copy,
  newest first.
\<close>

definition sort_newest_first :: "JournalEntry list \<Rightarrow> JournalEntry list" where
  "sort_newest_first es = sort_key (\<lambda>e. - createdAt e) es"

definition getStreakCount :: "JournalState \<Rightarrow> nat" where
  "getStreakCount w =
     (case sort_newest_first (entries w) of
        [] \<Rightarrow> 0
      | e # rest \<Rightarrow> streak_loop (createdAt e) 1 rest)"

subsection \<open>The calendar-day algorithm of the specification\<close>

text \<open>
  The specification's streak walks calendar days: \<open>dayNumber\<close> is the number of the UTC
  calendar day an instant falls on.
\<close>

definition dayNumber :: "int \<Rightarrow> int" where
  "dayNumber t = t div ms_per_day"

fun spec_streak_walk :: "int \<Rightarrow> nat \<Rightarrow> JournalEntry list \<Rightarrow> nat" where
  "spec_streak_walk cursor cnt [] = cnt"
| "spec_streak_walk cursor cnt (e # es) =
     (let entryDate = dayNumber (createdAt e);
          gapDays = cursor - entryDate
      in if gapDays = 0 then spec_streak_walk cursor cnt es
         else if gapDays = 1 then spec_streak_walk entryDate (cnt + 1) es
         else cnt)"

definition spec_streak :: "JournalEntry list \<Rightarrow> nat" where
  "spec_streak es =
     (case es of
        [] \<Rightarrow> 0
      | e # rest \<Rightarrow> spec_streak_walk (dayNumber (createdAt e)) 1 rest)"

text \<open>An entry that carries nothing but an id and a creation instant.\<close>

definition bare_entry :: "string \<Rightarrow> int \<Rightarrow> JournalEntry" where
  "bare_entry i t =
     \<lparr>entry_id = i, createdAt = t, transcript = [], duration = 0, audioBlob = None,
      audioUrl = None, encrypted = False, title = None, emotion = None\<rparr>"


section \<open>Predicates on store states\<close>








definition audio_patch :: "blob \<Rightarrow> JournalPatch" where
  "audio_patch b =
     \<lparr>p_id = None, p_createdAt = None, p_transcript = None, p_duration = None,
      p_audioBlob = Some b, p_audioUrl = None, p_encrypted = None, p_title = None,
      p_emotion = None\<rparr>"

section \<open>The recorder (components/Recorder.tsx)\<close>

text \<open>
  The component's state hooks and refs, together with the browser resources its handlers
  reach: the URL store, and the intervals started with \<^verbatim>\<open>window.setInterval\<close> that are
  still running. \<open>mediaRecorderRef\<close> holds the \<^verbatim>\<open>state\<close> of the \<^verbatim>\<open>MediaRecorder\<close> it refers
  to, \<open>streamRef\<close> says whether the ref holds a stream, and \<open>timerRef\<close> holds an interval
  id (ids are positive, hence truthy).
\<close>

datatype RecorderStatus = Idle | Recording | Paused | Preview | Error

datatype RecordingState = MR_inactive | MR_recording | MR_paused

record Recorder = browser +
  status :: RecorderStatus
  elapsed :: nat
  error :: "string option"
  previewUrl :: "url option"
  previewDuration :: nat
  mediaRecorderRef :: "RecordingState option"
  streamRef :: bool
  chunksRef :: "blob list"
  timerRef :: "nat option"
  elapsedRef :: nat
  intervals :: "nat set"
  next_interval :: nat

definition initial_recorder :: Recorder where
  "initial_recorder =
     \<lparr>next_url = 0, blob_urls = {}, url_log = [],
      status = Idle, elapsed = 0, error = None, previewUrl = None, previewDuration = 0,
      mediaRecorderRef = None, streamRef = False, chunksRef = [], timerRef = None,
      elapsedRef = 0, intervals = {}, next_interval = 1\<rparr>"

text \<open>\<^verbatim>\<open>clearInterval(timerRef.current)\<close>, when the ref holds an id.\<close>

definition clear_timer :: "Recorder \<Rightarrow> Recorder" where
  "clear_timer r =
     (case timerRef r of Some t \<Rightarrow> r\<lparr>intervals := intervals r - {t}\<rparr> | None \<Rightarrow> r)"

definition stopTracks :: "Recorder \<Rightarrow> Recorder" where
  "stopTracks r =
     (clear_timer r)\<lparr>timerRef := None, streamRef := False, mediaRecorderRef := None\<rparr>"

definition resetState :: "Recorder \<Rightarrow> Recorder" where
  "resetState r =
     (let r1 = (stopTracks r)\<lparr>elapsed := 0\<rparr>;
          r2 = (case previewUrl r1 of
                  Some (BlobUrl n) \<Rightarrow> revokeObjectURL n r1
                | _ \<Rightarrow> r1)
      in r2\<lparr>previewUrl := None, previewDuration := 0, elapsedRef := 0, chunksRef := [],
            status := Idle\<rparr>)"

definition startTimer :: "Recorder \<Rightarrow> Recorder" where
  "startTimer r =
     r\<lparr>timerRef := Some (next_interval r),
       intervals := insert (next_interval r) (intervals r),
       next_interval := Suc (next_interval r)\<rparr>"

text \<open>One run of the interval's callback, if the interval is still running.\<close>

definition tick :: "nat \<Rightarrow> Recorder \<Rightarrow> Recorder" where
  "tick t r =
     (if t \<in> intervals r then r\<lparr>elapsed := elapsed r + 1, elapsedRef := elapsed r + 1\<rparr> else r)"

text \<open>
  What the \<^verbatim>\<open>try\<close> block of \<^verbatim>\<open>startRecording\<close> meets: \<^verbatim>\<open>getUserMedia\<close> rejects, the
  \<^verbatim>\<open>MediaRecorder\<close> constructor throws, \<^verbatim>\<open>recorder.start()\<close> throws, or all succeed.
\<close>

datatype media_outcome = Granted | Denied | ConstructorThrows | StartThrows

definition permission_message :: string where
  "permission_message = ''Microphone permissions are required to record audio.''"

definition startRecording :: "media_outcome \<Rightarrow> Recorder \<Rightarrow> Recorder" where
  "startRecording outcome r =
     (case outcome of
        Denied \<Rightarrow> r\<lparr>error := Some permission_message, status := Error\<rparr>
      | ConstructorThrows \<Rightarrow>
          r\<lparr>streamRef := True, error := Some permission_message, status := Error\<rparr>
      | StartThrows \<Rightarrow>
          r\<lparr>streamRef := True, mediaRecorderRef := Some MR_inactive, chunksRef := [],
            elapsedRef := 0, error := Some permission_message, status := Error\<rparr>
      | Granted \<Rightarrow>
          startTimer
            (r\<lparr>streamRef := True, mediaRecorderRef := Some MR_recording, chunksRef := [],
               status := Recording, elapsed := 0, elapsedRef := 0\<rparr>))"

definition ondataavailable :: "blob \<Rightarrow> Recorder \<Rightarrow> Recorder" where
  "ondataavailable data r = (if data \<noteq> [] then r\<lparr>chunksRef := chunksRef r @ [data]\<rparr> else r)"

definition onstop :: "Recorder \<Rightarrow> Recorder" where
  "onstop r =
     (let r1 = stopTracks r;
          (u, r2) = createObjectURL (concat (chunksRef r1)) r1
      in r2\<lparr>previewUrl := Some u, previewDuration := elapsedRef r2, status := Preview\<rparr>)"

definition handlePause :: "Recorder \<Rightarrow> Recorder" where
  "handlePause r =
     (case mediaRecorderRef r of
        None \<Rightarrow> r
      | Some MR_recording \<Rightarrow>
          (clear_timer r)\<lparr>mediaRecorderRef := Some MR_paused, status := Paused\<rparr>
      | Some MR_paused \<Rightarrow>
          (startTimer (r\<lparr>mediaRecorderRef := Some MR_recording\<rparr>))\<lparr>status := Recording\<rparr>
      | Some MR_inactive \<Rightarrow> r)"

text \<open>
  \<^verbatim>\<open>recorder.stop()\<close> on an active recorder makes it inactive and fires \<^verbatim>\<open>dataavailable\<close>
  with the recorded \<open>data\<close>, then \<^verbatim>\<open>stop\<close>; the two callbacks are run here as part of the
  same step. On an inactive recorder it fires nothing.
\<close>

definition handleStop :: "blob \<Rightarrow> Recorder \<Rightarrow> Recorder" where
  "handleStop data r =
     (case mediaRecorderRef r of
        None \<Rightarrow> r
      | Some MR_inactive \<Rightarrow> r
      | Some _ \<Rightarrow> onstop (ondataavailable data (r\<lparr>mediaRecorderRef := Some MR_inactive\<rparr>)))"

definition handleDiscard :: "Recorder \<Rightarrow> Recorder" where
  "handleDiscard r = resetState r"

text \<open>
  \<open>handleSave\<close> returns what it passes to \<^verbatim>\<open>onRecordingReady\<close>, if it calls it.
  \<^verbatim>\<open>!previewUrl\<close> holds for \<^verbatim>\<open>null\<close> and for the empty string.
\<close>

definition handleSave :: "Recorder \<Rightarrow> (blob \<times> nat) option \<times> Recorder" where
  "handleSave r =
     (if previewUrl r = None \<or> previewUrl r = Some (OtherUrl []) then (None, r)
      else (Some (concat (chunksRef r), previewDuration r), resetState r))"

datatype recorder_event =
    StartRecording media_outcome
  | PauseResume
  | Stop blob
  | Discard
  | Save
  | Tick nat

fun recorder_step :: "recorder_event \<Rightarrow> Recorder \<Rightarrow> (blob \<times> nat) option \<times> Recorder" where
  "recorder_step (StartRecording outcome) r = (None, startRecording outcome r)"
| "recorder_step PauseResume r = (None, handlePause r)"
| "recorder_step (Stop data) r = (None, handleStop data r)"
| "recorder_step Discard r = (None, handleDiscard r)"
| "recorder_step Save r = handleSave r"
| "recorder_step (Tick t) r = (None, tick t r)"

text \<open>The pairs passed to \<^verbatim>\<open>onRecordingReady\<close> during a sequence of events, in order.\<close>

fun recorder_run :: "recorder_event list \<Rightarrow> Recorder \<Rightarrow> (blob \<times> nat) list \<times> Recorder" where
  "recorder_run [] r = ([], r)"
| "recorder_run (ev # evs) r =
     (let (out, r1) = recorder_step ev r;
          (outs, r2) = recorder_run evs r1
      in ((case out of Some p \<Rightarrow> [p] | None \<Rightarrow> []) @ outs, r2))"

fun is_start :: "recorder_event \<Rightarrow> bool" where
  "is_start (StartRecording outcome) = True"
| "is_start ev = False"

section \<open>Building an entry from a transcription (pages/Journals.tsx)\<close>

text \<open>
  The body of the response of \<^verbatim>\<open>/api/transcribe\<close>; either field may be missing, and
  the body itself may be missing (\<^verbatim>\<open>data?.\<close>).
\<close>

record TranscribeData =
  t_transcript :: "string option"
  t_duration :: "real option"

text \<open>\<^verbatim>\<open>s.split(c)\<close> for a one-character separator, and \<^verbatim>\<open>ws.join(sep)\<close>.\<close>

fun split_on :: "char \<Rightarrow> string \<Rightarrow> string list" where
  "split_on c [] = [[]]"
| "split_on c (x # xs) =
     (if x = c then [] # split_on c xs
      else (case split_on c xs of
              [] \<Rightarrow> [[x]]
            | w # ws \<Rightarrow> (x # w) # ws))"

fun join_with :: "string \<Rightarrow> string list \<Rightarrow> string" where
  "join_with sep [] = []"
| "join_with sep [w] = w"
| "join_with sep (w # ws) = w @ sep @ join_with sep ws"

text \<open>The object literal \<^verbatim>\<open>entry\<close> of \<^verbatim>\<open>handleRecordingReady\<close>.\<close>

definition new_entry ::
  "string \<Rightarrow> int \<Rightarrow> blob \<Rightarrow> real \<Rightarrow> TranscribeData option \<Rightarrow> url \<Rightarrow> JournalEntry" where
  "new_entry uuid now blob dur data u =
     \<lparr>entry_id = uuid,
      createdAt = now,
      transcript =
        (case data of
           Some d \<Rightarrow> (case t_transcript d of Some t \<Rightarrow> t | None \<Rightarrow> [])
         | None \<Rightarrow> []),
      duration =
        (case data of
           Some d \<Rightarrow> (case t_duration d of Some x \<Rightarrow> x | None \<Rightarrow> dur)
         | None \<Rightarrow> dur),
      audioBlob = Some blob,
      audioUrl = Some u,
      encrypted = False,
      title =
        (case data of
           Some d \<Rightarrow>
             (case t_transcript d of
                Some t \<Rightarrow>
                  (if t \<noteq> [] then Some (join_with '' '' (take 5 (split_on CHR '' '' t)))
                   else None)
              | None \<Rightarrow> None)
         | None \<Rightarrow> None),
      emotion = None\<rparr>"

text \<open>
  \<open>handleRecordingReady\<close>: the request either fails or answers with \<open>data\<close>; any error,
  from the request or from \<open>addEntry\<close>, is caught and turned into the page's message.
\<close>

datatype post_outcome = PostFails | PostAnswers "TranscribeData option"

definition transcription_message :: string where
  "transcription_message = ''Transcription failed. Try again or check the backend logs.''"

definition handleRecordingReady ::
  "post_outcome \<Rightarrow> string \<Rightarrow> int \<Rightarrow> bool \<Rightarrow> blob \<Rightarrow> real \<Rightarrow> JournalState
     \<Rightarrow> string option \<times> JournalState" where
  "handleRecordingReady answer uuid now ok blob dur w =
     (case answer of
        PostFails \<Rightarrow> (Some transcription_message, w)
      | PostAnswers data \<Rightarrow>
          (let (u, w1) = createObjectURL blob w;
               entry = new_entry uuid now blob dur data u
           in case addEntry ok entry w1 of
                (Inl err, w2) \<Rightarrow> (Some transcription_message, w2)
              | (Inr _, w2) \<Rightarrow> (None, w2)))"

section \<open>What each action does to the fields of the state\<close>

lemma derive_audioUrl_entries [simp]:
  "entries (snd (derive_audioUrl e w)) = entries w"
  "hydrated (snd (derive_audioUrl e w)) = hydrated w"
  "journals (snd (derive_audioUrl e w)) = journals w"
  by (simp_all add: derive_audioUrl_def createObjectURL_def split: option.splits)

lemma revokeAudioUrl_entries [simp]:
  "entries (revokeAudioUrl e w) = entries w"
  "hydrated (revokeAudioUrl e w) = hydrated w"
  "journals (revokeAudioUrl e w) = journals w"
  by (simp_all add: revokeAudioUrl_def revokeObjectURL_def split: option.splits url.splits)

lemma addEntry_entries:
  "entries (snd (addEntry ok e w)) =
     (if ok then e\<lparr>audioUrl := fst (derive_audioUrl e w)\<rparr> # entries w else entries w)"
  by (simp add: addEntry_def saveJournal_def Let_def case_prod_beta)

lemma addEntry_fst: "fst (addEntry ok e w) = (if ok then Inr () else Inl PersistenceError)"
  by (simp add: addEntry_def saveJournal_def Let_def case_prod_beta)

lemma updateEntry_entries:
  "entries (snd (updateEntry ok i p w)) =
     (case find (\<lambda>x. entry_id x = i) (entries w) of
        None \<Rightarrow> entries w
      | Some existing \<Rightarrow>
          if ok then
            map (\<lambda>x. if entry_id x = i
                      then (case p_audioBlob p of
                              Some b \<Rightarrow> (spread existing p)\<lparr>audioUrl := Some (BlobUrl (next_url w))\<rparr>
                            | None \<Rightarrow> spread existing p)
                      else x) (entries w)
          else entries w)"
  by (simp add: updateEntry_def saveJournal_def createObjectURL_def Let_def case_prod_beta
      split: option.splits)

lemma updateEntry_fst:
  "fst (updateEntry ok i p w) =
     (if find (\<lambda>x. entry_id x = i) (entries w) = None \<or> ok then Inr () else Inl PersistenceError)"
  by (simp add: updateEntry_def saveJournal_def createObjectURL_def Let_def case_prod_beta
      split: option.splits)

lemma removeEntry_entries:
  "entries (snd (removeEntry ok i w)) =
     (if ok then filter (\<lambda>x. entry_id x \<noteq> i) (entries w) else entries w)"
  by (simp add: removeEntry_def deleteJournal_def Let_def split: option.splits)

lemma removeEntry_fst: "fst (removeEntry ok i w) = (if ok then Inr () else Inl PersistenceError)"
  by (simp add: removeEntry_def deleteJournal_def Let_def split: option.splits)



lemma hydrate_entries:
  "entries (snd (hydrate ok w)) =
     (if hydrated w \<or> \<not> ok then entries w
      else fst (with_audioUrls (rev (orderBy_createdAt (journals w))) w))"
  by (simp add: hydrate_def getAllJournals_def Let_def case_prod_beta)



section \<open>Properties of the streak computation\<close>

lemma streak_loop_cong:
  "map createdAt es = map createdAt es' \<Longrightarrow> streak_loop c s es = streak_loop c s es'"
proof (induction es arbitrary: es' c s)
  case Nil
  then show ?case by simp
next
  case (Cons e es)
  then obtain e' rest where es': "es' = e' # rest"
    by (cases es') auto
  with Cons.prems have hd_eq: "createdAt e = createdAt e'"
    and tl_eq: "map createdAt es = map createdAt rest"
    by simp_all
  have "streak_loop c' s' es = streak_loop c' s' rest" for c' s'
    by (rule Cons.IH [OF tl_eq])
  with hd_eq es' show ?case
    by (simp add: Let_def)
qed

lemma times_sort_newest_first:
  "map createdAt (sort_newest_first es) = map uminus (sort (map (\<lambda>e. - createdAt e) es))"
proof -
  have "sort (map (\<lambda>e. - createdAt e) es) =
        map (\<lambda>e. - createdAt e) (sort_key (\<lambda>e. - createdAt e) es)"
    by (rule properties_for_sort) simp_all
  then show ?thesis
    by (simp add: sort_newest_first_def comp_def)
qed

lemma times_sort_newest_first_mset:
  assumes "mset es = mset es'"
  shows "map createdAt (sort_newest_first es) = map createdAt (sort_newest_first es')"
proof -
  from assms have "mset (map (\<lambda>e. - createdAt e) es) = mset (map (\<lambda>e. - createdAt e) es')"
    by (metis mset_map)
  then have "sort (map (\<lambda>e. - createdAt e) es) = sort (map (\<lambda>e. - createdAt e) es')"
    by (intro properties_for_sort) simp_all
  then show ?thesis
    by (simp add: times_sort_newest_first)
qed

lemma streak_case_cong:
  assumes "map createdAt xs = map createdAt ys"
  shows "(case xs of [] \<Rightarrow> 0 | e # rest \<Rightarrow> streak_loop (createdAt e) 1 rest) =
         (case ys of [] \<Rightarrow> 0 | e # rest \<Rightarrow> streak_loop (createdAt e) 1 rest)"
proof (cases xs)
  case Nil
  with assms show ?thesis by simp
next
  case (Cons x xs')
  with assms obtain y ys' where ys: "ys = y # ys'"
    by (cases ys) auto
  with assms Cons have "createdAt x = createdAt y" and "map createdAt xs' = map createdAt ys'"
    by simp_all
  then have "streak_loop (createdAt x) 1 xs' = streak_loop (createdAt y) 1 ys'"
    using streak_loop_cong [of xs' ys' "createdAt y" 1] by simp
  with Cons ys show ?thesis
    by simp
qed

text \<open>
  Claim C1. The streak count is claimed to follow the calendar-day algorithm, so that two
  entries on the same calendar day at different times of day never increment the count.
  The code takes the ceiling of the difference of the two instants in days, which is 1
  for any two distinct instants less than a day apart. Entries recorded at 12:07 and at
  12:05 (UTC) on 3 March 2024 lie on the same calendar day (in every time zone), the
  calendar-day algorithm counts 1, and \<open>getStreakCount\<close> returns 2.
\<close>

theorem getStreakCount_same_day_counted_twice:
  "getStreakCount ((initial_state [])\<lparr>entries :=
       [bare_entry ''a'' 1709467620000, bare_entry ''b'' 1709467500000]\<rparr>) = 2
   \<and> dayNumber 1709467620000 = dayNumber 1709467500000
   \<and> spec_streak (sort_newest_first
       [bare_entry ''a'' 1709467620000, bare_entry ''b'' 1709467500000]) = 1"
  by (simp add: getStreakCount_def spec_streak_def sort_newest_first_def bare_entry_def
      initial_state_def ceil_days_def dayNumber_def ms_per_day_def)

text \<open>
  Claim C10. The result of \<open>getStreakCount\<close> does not depend on the order of the in-memory
  list: two states whose lists hold the same entries, in any order, have the same streak.
  (The function sorts a spread copy and returns a number; the state is not written.)
\<close>

theorem getStreakCount_permutation:
  assumes "mset (entries w) = mset (entries w')"
  shows "getStreakCount w = getStreakCount w'"
  unfolding getStreakCount_def
  by (rule streak_case_cong) (rule times_sort_newest_first_mset [OF assms])

theorem getStreakCount_permutation_witness:
  "getStreakCount ((initial_state [])\<lparr>entries :=
       [bare_entry ''a'' 86400000, bare_entry ''b'' 0, bare_entry ''c'' 172800000]\<rparr>) =
   getStreakCount ((initial_state [])\<lparr>entries :=
       [bare_entry ''c'' 172800000, bare_entry ''a'' 86400000, bare_entry ''b'' 0]\<rparr>)"
  by (rule getStreakCount_permutation) (simp add: initial_state_def)


section \<open>Ordering of the in-memory list\<close>










section \<open>Failed writes\<close>

text \<open>
  Claim C3. When the write (or delete) on the table fails during \<open>addEntry\<close>,
  \<open>updateEntry\<close> or \<open>removeEntry\<close>, the action returns the persistence error and the
  list \<open>entries\<close> is the one from before the call; the table is unchanged as well.
  (\<open>updateEntry\<close> on an id that is not in memory returns before it writes, so it has no
  write that could fail.)
\<close>

theorem failed_write_leaves_entries:
  "fst (addEntry False entry w) = Inl PersistenceError
   \<and> entries (snd (addEntry False entry w)) = entries w
   \<and> journals (snd (addEntry False entry w)) = journals w
   \<and> (getEntry i w \<noteq> None \<longrightarrow> fst (updateEntry False i patch w) = Inl PersistenceError)
   \<and> entries (snd (updateEntry False i patch w)) = entries w
   \<and> journals (snd (updateEntry False i patch w)) = journals w
   \<and> fst (removeEntry False i w) = Inl PersistenceError
   \<and> entries (snd (removeEntry False i w)) = entries w
   \<and> journals (snd (removeEntry False i w)) = journals w"
proof (intro conjI)
  show "fst (addEntry False entry w) = Inl PersistenceError"
    by (simp add: addEntry_fst)
  show "entries (snd (addEntry False entry w)) = entries w"
    by (simp add: addEntry_entries)
  show "journals (snd (addEntry False entry w)) = journals w"
    by (simp add: addEntry_def saveJournal_def Let_def case_prod_beta)
  show "getEntry i w \<noteq> None \<longrightarrow> fst (updateEntry False i patch w) = Inl PersistenceError"
    by (simp add: updateEntry_fst getEntry_def)
  show "entries (snd (updateEntry False i patch w)) = entries w"
    by (simp add: updateEntry_entries split: option.splits)
  show "journals (snd (updateEntry False i patch w)) = journals w"
    by (simp add: updateEntry_def saveJournal_def createObjectURL_def Let_def case_prod_beta
        split: option.splits)
  show "fst (removeEntry False i w) = Inl PersistenceError"
    by (simp add: removeEntry_fst)
  show "entries (snd (removeEntry False i w)) = entries w"
    by (simp add: removeEntry_entries)
  show "journals (snd (removeEntry False i w)) = journals w"
    by (simp add: removeEntry_def deleteJournal_def)
qed

theorem failed_write_leaves_entries_witness:
  "getEntry ''a'' ((initial_state [])\<lparr>entries := [bare_entry ''a'' 2]\<rparr>) \<noteq> None
   \<and> fst (updateEntry False ''a'' (audio_patch [1])
        ((initial_state [])\<lparr>entries := [bare_entry ''a'' 2]\<rparr>)) = Inl PersistenceError
   \<and> entries (snd (updateEntry False ''a'' (audio_patch [1])
        ((initial_state [])\<lparr>entries := [bare_entry ''a'' 2]\<rparr>))) = [bare_entry ''a'' 2]"
  using failed_write_leaves_entries
    [of "bare_entry ''a'' 2" "(initial_state [])\<lparr>entries := [bare_entry ''a'' 2]\<rparr>" "''a''"
        "audio_patch [1]"]
  by (simp add: getEntry_def initial_state_def bare_entry_def)


section \<open>Replacing the audio of an entry\<close>





section \<open>Object URLs and the entries that own them\<close>

lemma derive_audioUrl_urls:
  "blob_urls (snd (derive_audioUrl e w)) =
     (if audioUrl e = None \<and> audioBlob e \<noteq> None then insert (next_url w) (blob_urls w)
      else blob_urls w)"
  "fst (derive_audioUrl e w) =
     (case audioUrl e of Some u \<Rightarrow> Some u
      | None \<Rightarrow> (case audioBlob e of Some b \<Rightarrow> Some (BlobUrl (next_url w)) | None \<Rightarrow> None))"
  by (auto simp: derive_audioUrl_def createObjectURL_def split: option.splits)








lemma hydrate_urls:
  "blob_urls (snd (hydrate ok w)) =
     (if hydrated w \<or> \<not> ok then blob_urls w
      else blob_urls (snd (with_audioUrls (rev (orderBy_createdAt (journals w))) w)))"
  by (simp add: hydrate_def getAllJournals_def Let_def case_prod_beta)





section \<open>Hydration\<close>


lemma fold_revokeAudioUrl_fields [simp]:
  "hydrated (fold revokeAudioUrl es w) = hydrated w"
  "journals (fold revokeAudioUrl es w) = journals w"
  by (induction es arbitrary: w) simp_all







section \<open>Round trip through the table\<close>

lemma with_audioUrls_ids:
  "map entry_id (fst (with_audioUrls rs w)) = map entry_id rs"
  by (induction rs arbitrary: w) (simp_all add: Let_def case_prod_beta)

lemma filter_id_with_audioUrls_empty:
  assumes "filter (\<lambda>x. entry_id x = i) rs = []"
  shows "filter (\<lambda>x. entry_id x = i) (fst (with_audioUrls rs w)) = []"
proof -
  from assms have "i \<notin> set (map entry_id rs)"
    by (auto simp: filter_empty_conv)
  then have "i \<notin> set (map entry_id (fst (with_audioUrls rs w)))"
    unfolding with_audioUrls_ids .
  then show ?thesis
    by (auto simp: filter_empty_conv)
qed

lemma derive_audioUrl_grows: "blob_urls w \<subseteq> blob_urls (snd (derive_audioUrl r w))"
  by (auto simp: derive_audioUrl_urls)

lemma with_audioUrls_grows: "blob_urls w \<subseteq> blob_urls (snd (with_audioUrls rs w))"
proof (induction rs arbitrary: w)
  case Nil
  then show ?case by simp
next
  case (Cons r rs)
  have "blob_urls w \<subseteq> blob_urls (snd (derive_audioUrl r w))"
    by (rule derive_audioUrl_grows)
  also have "\<dots> \<subseteq> blob_urls (snd (with_audioUrls rs (snd (derive_audioUrl r w))))"
    by (rule Cons.IH)
  finally show ?case
    by (simp add: Let_def case_prod_beta)
qed

lemma filter_id_with_audioUrls_single:
  fixes w :: JournalState
  assumes "filter (\<lambda>x. entry_id x = i) rs = [r]"
  shows "\<exists>w' :: JournalState. filter (\<lambda>x. entry_id x = i) (fst (with_audioUrls rs w)) =
                 [r\<lparr>audioUrl := fst (derive_audioUrl r w')\<rparr>]
              \<and> blob_urls (snd (derive_audioUrl r w')) \<subseteq> blob_urls (snd (with_audioUrls rs w))"
  using assms
proof (induction rs arbitrary: w)
  case Nil
  then show ?case by simp
next
  case (Cons x xs)
  let ?w1 = "snd (derive_audioUrl x w)"
  show ?case
  proof (cases "entry_id x = i")
    case True
    with Cons.prems have x: "x = r" and rest: "filter (\<lambda>x. entry_id x = i) xs = []"
      by simp_all
    from rest have "filter (\<lambda>x. entry_id x = i) (fst (with_audioUrls xs ?w1)) = []"
      by (rule filter_id_with_audioUrls_empty)
    with True x have "filter (\<lambda>x. entry_id x = i) (fst (with_audioUrls (x # xs) w)) =
        [r\<lparr>audioUrl := fst (derive_audioUrl r w)\<rparr>]"
      by (simp add: Let_def case_prod_beta)
    moreover have "blob_urls (snd (derive_audioUrl r w)) \<subseteq>
        blob_urls (snd (with_audioUrls (x # xs) w))"
      using with_audioUrls_grows [of ?w1 xs] x by (simp add: Let_def case_prod_beta)
    ultimately show ?thesis
      by blast
  next
    case False
    with Cons.prems have "filter (\<lambda>x. entry_id x = i) xs = [r]"
      by simp
    from Cons.IH [OF this, of ?w1] obtain w' :: JournalState where
      "filter (\<lambda>x. entry_id x = i) (fst (with_audioUrls xs ?w1)) =
         [r\<lparr>audioUrl := fst (derive_audioUrl r w')\<rparr>]"
      "blob_urls (snd (derive_audioUrl r w')) \<subseteq> blob_urls (snd (with_audioUrls xs ?w1))"
      by blast
    with False show ?thesis
      by (auto simp: Let_def case_prod_beta)
  qed
qed

lemma addEntry_journals:
  "journals (snd (addEntry True e w)) =
     persistable e # filter (\<lambda>x. entry_id x \<noteq> entry_id e) (journals w)"
  by (simp add: addEntry_def saveJournal_def table_put_def persistable_def
      Let_def case_prod_beta)

lemma filter_id_orderBy:
  assumes "filter (\<lambda>x. entry_id x = i) tbl = [r]"
  shows "filter (\<lambda>x. entry_id x = i) (rev (orderBy_createdAt tbl)) = [r]"
proof -
  have "filter (\<lambda>x. entry_id x = i) (orderBy_createdAt tbl) =
      sort_key (\<lambda>r. (createdAt r, entry_id r)) (filter (\<lambda>x. entry_id x = i) tbl)"
    unfolding orderBy_createdAt_def by (rule filter_sort)
  with assms show ?thesis
    by (simp add: rev_filter [symmetric])
qed


text \<open>
  Claim C7. After \<open>addEntry\<close> has written an entry, the table holds exactly one record
  with its id, equal to the entry with \<open>audioUrl\<close> left undefined. A fresh store over
  that table (a new process) that hydrates gets exactly one entry with this id: the entry
  as it was added in every persisted field, with an \<open>audioUrl\<close> that is a newly
  registered blob URL when the entry has audio and undefined otherwise.
\<close>

theorem add_then_hydrate_round_trip:
  "fst (addEntry True e w) = Inr ()
   \<and> filter (\<lambda>r. entry_id r = entry_id e) (journals (snd (addEntry True e w))) =
       [e\<lparr>audioUrl := None\<rparr>]
   \<and> (\<exists>n. filter (\<lambda>x. entry_id x = entry_id e)
             (entries (snd (hydrate True (initial_state (journals (snd (addEntry True e w))))))) =
           [e\<lparr>audioUrl := (case audioBlob e of None \<Rightarrow> None | Some b \<Rightarrow> Some (BlobUrl n))\<rparr>]
         \<and> (audioBlob e \<noteq> None \<longrightarrow>
              n \<in> blob_urls (snd (hydrate True (initial_state (journals (snd (addEntry True e w))))))))"
proof (intro conjI)
  let ?tbl = "journals (snd (addEntry True e w))"
  let ?i = "entry_id e"
  show "fst (addEntry True e w) = Inr ()"
    by (simp add: addEntry_fst)
  show stored: "filter (\<lambda>r. entry_id r = ?i) ?tbl = [e\<lparr>audioUrl := None\<rparr>]"
    by (simp add: addEntry_journals persistable_def filter_empty_conv)
  let ?w0 = "initial_state ?tbl"
  let ?rs = "rev (orderBy_createdAt ?tbl)"
  have fresh: "\<not> hydrated ?w0" and tbl: "journals ?w0 = ?tbl"
    by (simp_all add: initial_state_def)
  from stored have "filter (\<lambda>x. entry_id x = ?i) ?rs = [persistable e]"
    by (simp only: persistable_def) (rule filter_id_orderBy)
  from filter_id_with_audioUrls_single [OF this, of ?w0] obtain w' :: JournalState where
    read: "filter (\<lambda>x. entry_id x = ?i) (fst (with_audioUrls ?rs ?w0)) =
       [(persistable e)\<lparr>audioUrl := fst (derive_audioUrl (persistable e) w')\<rparr>]"
    and live: "blob_urls (snd (derive_audioUrl (persistable e) w')) \<subseteq>
       blob_urls (snd (with_audioUrls ?rs ?w0))"
    by blast
  have ents: "entries (snd (hydrate True ?w0)) = fst (with_audioUrls ?rs ?w0)"
    and urls: "blob_urls (snd (hydrate True ?w0)) = blob_urls (snd (with_audioUrls ?rs ?w0))"
    using fresh tbl by (simp_all add: hydrate_entries hydrate_urls)
  have "filter (\<lambda>x. entry_id x = ?i) (entries (snd (hydrate True ?w0))) =
      [e\<lparr>audioUrl := (case audioBlob e of None \<Rightarrow> None | Some b \<Rightarrow> Some (BlobUrl (next_url w')))\<rparr>]"
    unfolding ents read
    by (simp add: derive_audioUrl_urls persistable_def split: option.splits)
  moreover have "audioBlob e \<noteq> None \<longrightarrow> next_url w' \<in> blob_urls (snd (hydrate True ?w0))"
    unfolding urls using live
    by (auto simp: derive_audioUrl_urls persistable_def)
  ultimately show "\<exists>n. filter (\<lambda>x. entry_id x = ?i) (entries (snd (hydrate True ?w0))) =
           [e\<lparr>audioUrl := (case audioBlob e of None \<Rightarrow> None | Some b \<Rightarrow> Some (BlobUrl n))\<rparr>]
         \<and> (audioBlob e \<noteq> None \<longrightarrow> n \<in> blob_urls (snd (hydrate True ?w0)))"
    by blast
qed

theorem add_then_hydrate_round_trip_witness:
  "audioBlob ((bare_entry ''a'' 2)\<lparr>audioBlob := Some [7]\<rparr>) \<noteq> None
   \<and> (\<exists>n. filter (\<lambda>x. entry_id x = ''a'')
         (entries (snd (hydrate True (initial_state (journals (snd (addEntry True
            ((bare_entry ''a'' 2)\<lparr>audioBlob := Some [7]\<rparr>) (initial_state [])))))))) =
         [(bare_entry ''a'' 2)\<lparr>audioBlob := Some [7], audioUrl := Some (BlobUrl n)\<rparr>]
       \<and> n \<in> blob_urls (snd (hydrate True (initial_state (journals (snd (addEntry True
            ((bare_entry ''a'' 2)\<lparr>audioBlob := Some [7]\<rparr>) (initial_state []))))))))"
  using add_then_hydrate_round_trip
    [of "(bare_entry ''a'' 2)\<lparr>audioBlob := Some [7]\<rparr>" "initial_state []"]
  by (simp add: bare_entry_def)

section \<open>Saving a recording\<close>

lemma resetState_cleared:
  "previewUrl (resetState r) = None" "mediaRecorderRef (resetState r) = None"
  "status (resetState r) = Idle" "chunksRef (resetState r) = []"
  by (simp_all add: resetState_def stopTracks_def clear_timer_def revokeObjectURL_def Let_def
      split: option.splits url.splits)

lemma step_without_preview:
  assumes "previewUrl r = None" and "mediaRecorderRef r = None" and "\<not> is_start ev"
  shows "fst (recorder_step ev r) = None
    \<and> previewUrl (snd (recorder_step ev r)) = None
    \<and> mediaRecorderRef (snd (recorder_step ev r)) = None"
proof (cases ev)
  case (StartRecording outcome)
  with assms show ?thesis by simp
next
  case PauseResume
  with assms show ?thesis by (simp add: handlePause_def)
next
  case (Stop data)
  with assms show ?thesis by (simp add: handleStop_def)
next
  case Discard
  then show ?thesis by (simp add: handleDiscard_def resetState_cleared)
next
  case Save
  with assms show ?thesis by (simp add: handleSave_def)
next
  case (Tick t)
  with assms show ?thesis by (simp add: tick_def)
qed

lemma run_without_preview:
  assumes "previewUrl r = None" and "mediaRecorderRef r = None"
    and "\<forall>ev\<in>set evs. \<not> is_start ev"
  shows "fst (recorder_run evs r) = []"
  using assms
proof (induction evs arbitrary: r)
  case Nil
  then show ?case by simp
next
  case (Cons ev evs)
  from Cons.prems have "\<not> is_start ev"
    by simp
  from step_without_preview [OF Cons.prems(1,2) this]
  have quiet: "fst (recorder_step ev r) = None"
    and p: "previewUrl (snd (recorder_step ev r)) = None"
    and m: "mediaRecorderRef (snd (recorder_step ev r)) = None"
    by simp_all
  from Cons.prems have "\<forall>ev\<in>set evs. \<not> is_start ev"
    by simp
  from Cons.IH [OF p m this] quiet show ?case
    by (simp add: Let_def case_prod_beta)
qed

lemmas recorder_defs = initial_recorder_def clear_timer_def stopTracks_def resetState_def
  startTimer_def tick_def startRecording_def ondataavailable_def onstop_def handlePause_def
  handleStop_def handleDiscard_def handleSave_def createObjectURL_def revokeObjectURL_def


text \<open>
  Claim C8. Once \<open>handleSave\<close> has passed a pair to \<^verbatim>\<open>onRecordingReady\<close>, the recorder is
  idle with its preview cleared, a second \<open>handleSave\<close> passes nothing, and no sequence
  of events without a new \<open>startRecording\<close> makes the recorder pass a pair again.
\<close>

theorem save_emits_once:
  assumes "fst (handleSave r) = Some p" and "\<forall>ev\<in>set evs. \<not> is_start ev"
  shows "status (snd (handleSave r)) = Idle
    \<and> previewUrl (snd (handleSave r)) = None
    \<and> fst (handleSave (snd (handleSave r))) = None
    \<and> fst (recorder_run evs (snd (handleSave r))) = []"
proof -
  from assms(1) have after: "snd (handleSave r) = resetState r"
    by (auto simp: handleSave_def split: if_splits)
  have "fst (handleSave (resetState r)) = None"
    by (simp add: handleSave_def resetState_cleared)
  moreover have "fst (recorder_run evs (resetState r)) = []"
    by (rule run_without_preview [OF resetState_cleared(1,2) assms(2)])
  ultimately show ?thesis
    by (simp add: after resetState_cleared)
qed

theorem save_emits_once_witness:
  "fst (handleSave (snd (recorder_run [StartRecording Granted, Tick 1, Stop [1, 2]]
        initial_recorder))) = Some ([1, 2], 1)
   \<and> fst (recorder_run [Save, PauseResume, Stop [3], Discard, Tick 1, Save]
        (snd (handleSave (snd (recorder_run [StartRecording Granted, Tick 1, Stop [1, 2]]
           initial_recorder))))) = []"
proof -
  let ?r = "snd (recorder_run [StartRecording Granted, Tick 1, Stop [1, 2]] initial_recorder)"
  have emitted: "fst (handleSave ?r) = Some ([1, 2], 1)"
    by (simp add: recorder_defs)
  have no_start: "\<forall>ev\<in>set [Save, PauseResume, Stop [3], Discard, Tick 1, Save]. \<not> is_start ev"
    by simp
  from emitted save_emits_once [OF emitted no_start] show ?thesis
    by (intro conjI) simp_all
qed

section \<open>The entry built from a transcription\<close>







end
